theory Spec2Isabelle
  imports Main
begin

section \<open>Restaurant booking system: the domain model of \<open>models.py\<close>\<close>

text \<open>
  The three classes of \<open>models.py\<close> (Table, Booking, Restaurant) are embedded as
  records. Table and Booking objects are mutable and shared (a Booking holds its Table,
  a Table holds its current Booking, the Restaurant holds lists of both), and the source
  compares them by identity (neither class defines \<open>__eq__\<close>), so objects live in
  an explicit heap and are referred to by address. A Python \<open>str\<close> is a sequence of
  Unicode code points, a \<open>datetime\<close> is a point of a linear order; the wall clock read
  by \<open>datetime.now()\<close> is a parameter \<open>now\<close> of the operations that read it.
  A raised \<open>ValueError\<close> is the \<open>Inl\<close> branch of a sum type.
\<close>

subsection \<open>Values\<close>

type_synonym str = "nat list"
type_synonym datetime = int
type_synonym tref = nat
type_synonym bref = nat

datatype error = ValueError string

definition bind_result :: "error + 'a \<Rightarrow> ('a \<Rightarrow> error + 'b) \<Rightarrow> error + 'b" where
  "bind_result m f = (case m of Inl err \<Rightarrow> Inl err | Inr x \<Rightarrow> f x)"

text \<open>
  \<open>str.strip()\<close> removes leading and trailing whitespace, where whitespace is what
  \<open>str.isspace\<close> accepts: the code points below.
\<close>

definition isspace :: "nat \<Rightarrow> bool" where
  "isspace c = ((9 \<le> c \<and> c \<le> 13) \<or> (28 \<le> c \<and> c \<le> 32) \<or> c = 133 \<or> c = 160
     \<or> c = 5760 \<or> (8192 \<le> c \<and> c \<le> 8202) \<or> c = 8232 \<or> c = 8233 \<or> c = 8239
     \<or> c = 8287 \<or> c = 12288)"

definition strip :: "str \<Rightarrow> str" where
  "strip s = rev (dropWhile isspace (rev (dropWhile isspace s)))"

subsection \<open>Class Table\<close>

record Table =
  table_id :: int
  name :: str
  seats :: int
  is_occupied :: bool
  current_booking :: "bref option"

definition Table_init :: "int \<Rightarrow> str \<Rightarrow> int \<Rightarrow> Table" where
  "Table_init tid nm n =
     \<lparr>table_id = tid, name = nm, seats = n, is_occupied = False, current_booking = None\<rparr>"

definition name_setter :: "str \<Rightarrow> Table \<Rightarrow> error + Table" where
  "name_setter v self =
     (if v = [] \<or> strip v = [] then Inl (ValueError ''Table name cannot be empty'')
      else Inr (self\<lparr>name := strip v\<rparr>))"

definition seats_setter :: "int \<Rightarrow> Table \<Rightarrow> error + Table" where
  "seats_setter v self =
     (if v \<le> 0 then Inl (ValueError ''Number of seats must be positive'')
      else Inr (self\<lparr>seats := v\<rparr>))"

definition occupy :: "bref option \<Rightarrow> Table \<Rightarrow> Table" where
  "occupy booking self = self\<lparr>is_occupied := True, current_booking := booking\<rparr>"

definition release :: "Table \<Rightarrow> Table" where
  "release self = self\<lparr>is_occupied := False, current_booking := None\<rparr>"

subsection \<open>Class Booking\<close>

record Booking =
  booking_id :: int
  guest_name :: str
  phone :: str
  table :: tref
  start_time :: datetime
  end_time :: datetime
  is_active :: bool

definition guest_name_setter :: "str \<Rightarrow> Booking \<Rightarrow> error + Booking" where
  "guest_name_setter v self =
     (if v = [] \<or> strip v = [] then Inl (ValueError ''Guest name cannot be empty'')
      else Inr (self\<lparr>guest_name := strip v\<rparr>))"

definition phone_setter :: "str \<Rightarrow> Booking \<Rightarrow> error + Booking" where
  "phone_setter v self =
     (if v = [] \<or> strip v = [] then Inl (ValueError ''Phone cannot be empty'')
      else Inr (self\<lparr>phone := strip v\<rparr>))"

definition start_time_setter :: "datetime \<Rightarrow> datetime \<Rightarrow> Booking \<Rightarrow> error + Booking" where
  "start_time_setter now v self =
     (if v < now then Inl (ValueError ''Start time cannot be in the past'')
      else Inr (self\<lparr>start_time := v\<rparr>))"

definition end_time_setter :: "datetime \<Rightarrow> Booking \<Rightarrow> error + Booking" where
  "end_time_setter v self =
     (if v \<le> start_time self then Inl (ValueError ''End time must be after start time'')
      else Inr (self\<lparr>end_time := v\<rparr>))"

text \<open>
  A Booking object before \<open>__init__\<close> has run has no attributes. The record that stands
  for it carries placeholders; \<open>__init__\<close> assigns every field before anything reads it
  (the end time setter reads the start time, which is assigned on the line before).
\<close>

definition Booking_new :: Booking where
  "Booking_new = \<lparr>booking_id = 0, guest_name = [], phone = [], table = 0,
     start_time = 0, end_time = 0, is_active = False\<rparr>"

definition Booking_init ::
  "int \<Rightarrow> str \<Rightarrow> str \<Rightarrow> tref \<Rightarrow> datetime \<Rightarrow> datetime \<Rightarrow> datetime \<Rightarrow> error + Booking" where
  "Booking_init bid gname ph tbl start end now =
     bind_result (guest_name_setter gname (Booking_new\<lparr>booking_id := bid\<rparr>)) (\<lambda>self.
     bind_result (phone_setter ph self) (\<lambda>self.
     bind_result (start_time_setter now start (self\<lparr>table := tbl\<rparr>)) (\<lambda>self.
     bind_result (end_time_setter end self) (\<lambda>self.
     Inr (self\<lparr>is_active := True\<rparr>)))))"

subsection \<open>The heap of Table and Booking objects\<close>

text \<open>
  Objects are never freed; a new object takes the next address. \<open>table_lim\<close> and
  \<open>booking_lim\<close> count the objects allocated so far.
\<close>

record heap =
  table_at :: "tref \<Rightarrow> Table"
  booking_at :: "bref \<Rightarrow> Booking"
  table_lim :: nat
  booking_lim :: nat

definition new_Table :: "Table \<Rightarrow> heap \<Rightarrow> tref \<times> heap" where
  "new_Table obj h =
     (table_lim h, h\<lparr>table_at := (table_at h)(table_lim h := obj), table_lim := Suc (table_lim h)\<rparr>)"

definition new_Booking :: "Booking \<Rightarrow> heap \<Rightarrow> bref \<times> heap" where
  "new_Booking obj h =
     (booking_lim h,
      h\<lparr>booking_at := (booking_at h)(booking_lim h := obj), booking_lim := Suc (booking_lim h)\<rparr>)"

definition update_table :: "tref \<Rightarrow> (Table \<Rightarrow> Table) \<Rightarrow> heap \<Rightarrow> heap" where
  "update_table t f h = h\<lparr>table_at := (table_at h)(t := f (table_at h t))\<rparr>"

definition update_booking :: "bref \<Rightarrow> (Booking \<Rightarrow> Booking) \<Rightarrow> heap \<Rightarrow> heap" where
  "update_booking b f h = h\<lparr>booking_at := (booking_at h)(b := f (booking_at h b))\<rparr>"

text \<open>
  \<open>Booking.cancel\<close>: the comparison \<open>self.table.current_booking == self\<close> is object
  identity, that is, equality of addresses.
\<close>

definition cancel :: "bref \<Rightarrow> heap \<Rightarrow> heap" where
  "cancel self h =
     (let h1 = update_booking self (\<lambda>b. b\<lparr>is_active := False\<rparr>) h;
          tbl = table (booking_at h1 self)
      in if current_booking (table_at h1 tbl) = Some self then update_table tbl release h1
         else h1)"

subsection \<open>Class Restaurant\<close>

text \<open>
  The fields \<open>_tables\<close> and \<open>_bookings\<close> are \<open>priv_tables\<close> and \<open>priv_bookings\<close>; the
  property \<open>bookings\<close> (the active ones only) is the function \<open>bookings\<close>.
\<close>

record Restaurant =
  priv_tables :: "tref list"
  priv_bookings :: "bref list"
  next_table_id :: int
  next_booking_id :: int

definition Restaurant_init :: Restaurant where
  "Restaurant_init = \<lparr>priv_tables = [], priv_bookings = [], next_table_id = 1, next_booking_id = 1\<rparr>"

definition bookings :: "Restaurant \<Rightarrow> heap \<Rightarrow> bref list" where
  "bookings self h = filter (\<lambda>b. is_active (booking_at h b)) (priv_bookings self)"

definition add_table :: "str \<Rightarrow> int \<Rightarrow> Restaurant \<Rightarrow> heap \<Rightarrow> (error + tref) \<times> Restaurant \<times> heap" where
  "add_table nm n self h =
     (let (tbl, h1) = new_Table (Table_init (next_table_id self) nm n) h;
          self1 = self\<lparr>priv_tables := priv_tables self @ [tbl]\<rparr>;
          self2 = self1\<lparr>next_table_id := next_table_id self1 + 1\<rparr>
      in (Inr tbl, self2, h1))"

definition find_table_by_id :: "int \<Rightarrow> Restaurant \<Rightarrow> heap \<Rightarrow> tref option" where
  "find_table_by_id tid self h = find (\<lambda>t. table_id (table_at h t) = tid) (priv_tables self)"

text \<open>
  \<open>list.remove\<close> deletes the first element equal to its argument and raises
  \<open>ValueError\<close> when there is none.
\<close>

definition list_remove :: "'a \<Rightarrow> 'a list \<Rightarrow> error + 'a list" where
  "list_remove x xs =
     (if x \<in> set xs then Inr (remove1 x xs)
      else Inl (ValueError ''list.remove(x): x not in list''))"

definition remove_table :: "int \<Rightarrow> Restaurant \<Rightarrow> heap \<Rightarrow> (error + bool) \<times> Restaurant" where
  "remove_table tid self h =
     (case find_table_by_id tid self h of
        Some tbl \<Rightarrow>
          if \<not> is_occupied (table_at h tbl)
          then (case list_remove tbl (priv_tables self) of
                  Inl err \<Rightarrow> (Inl err, self)
                | Inr ts \<Rightarrow> (Inr True, self\<lparr>priv_tables := ts\<rparr>))
          else (Inr False, self)
      | None \<Rightarrow> (Inr False, self))"

text \<open>
  \<open>_is_table_occupied\<close>: the loop over the active bookings, and after it
  \<open>return table.is_occupied\<close>.
\<close>

definition conflicts :: "Booking \<Rightarrow> tref \<Rightarrow> datetime \<Rightarrow> datetime \<Rightarrow> bool" where
  "conflicts booking tbl start end =
     (table booking = tbl \<and> is_active booking
      \<and> \<not> (end \<le> start_time booking \<or> start \<ge> end_time booking))"

fun overlap_scan :: "heap \<Rightarrow> tref \<Rightarrow> datetime \<Rightarrow> datetime \<Rightarrow> bref list \<Rightarrow> bool" where
  "overlap_scan h tbl start end [] = is_occupied (table_at h tbl)"
| "overlap_scan h tbl start end (b # bs) =
     (if conflicts (booking_at h b) tbl start end then True
      else overlap_scan h tbl start end bs)"

definition is_table_occupied :: "tref \<Rightarrow> datetime \<Rightarrow> datetime \<Rightarrow> Restaurant \<Rightarrow> heap \<Rightarrow> bool" where
  "is_table_occupied tbl start end self h = overlap_scan h tbl start end (bookings self h)"

definition create_booking ::
  "str \<Rightarrow> str \<Rightarrow> int \<Rightarrow> datetime \<Rightarrow> datetime \<Rightarrow> datetime \<Rightarrow> Restaurant \<Rightarrow> heap
     \<Rightarrow> (error + bref option) \<times> Restaurant \<times> heap" where
  "create_booking gname ph tid start end now self h =
     (case find_table_by_id tid self h of
        None \<Rightarrow> (Inr None, self, h)
      | Some tbl \<Rightarrow>
          if is_table_occupied tbl start end self h then (Inr None, self, h)
          else
            (case Booking_init (next_booking_id self) gname ph tbl start end now of
               Inl err \<Rightarrow> (Inl err, self, h)
             | Inr obj \<Rightarrow>
                 let (b, h1) = new_Booking obj h;
                     self1 = self\<lparr>priv_bookings := priv_bookings self @ [b]\<rparr>;
                     self2 = self1\<lparr>next_booking_id := next_booking_id self1 + 1\<rparr>
                 in (Inr (Some b), self2, h1)))"

definition occupy_table_directly :: "int \<Rightarrow> Restaurant \<Rightarrow> heap \<Rightarrow> bool \<times> heap" where
  "occupy_table_directly tid self h =
     (case find_table_by_id tid self h of
        Some tbl \<Rightarrow>
          if \<not> is_occupied (table_at h tbl) then (True, update_table tbl (occupy None) h)
          else (False, h)
      | None \<Rightarrow> (False, h))"

definition release_table :: "int \<Rightarrow> Restaurant \<Rightarrow> heap \<Rightarrow> bool \<times> heap" where
  "release_table tid self h =
     (case find_table_by_id tid self h of
        Some tbl \<Rightarrow>
          if is_occupied (table_at h tbl) then (True, update_table tbl release h)
          else (False, h)
      | None \<Rightarrow> (False, h))"

definition cancel_booking :: "int \<Rightarrow> Restaurant \<Rightarrow> heap \<Rightarrow> bool \<times> heap" where
  "cancel_booking bid self h =
     (case find (\<lambda>b. booking_id (booking_at h b) = bid) (priv_bookings self) of
        Some b \<Rightarrow> if is_active (booking_at h b) then (True, cancel b h) else (False, h)
      | None \<Rightarrow> (False, h))"

subsection \<open>Sequences of Restaurant operations\<close>

text \<open>
  The state-changing methods of Restaurant as commands. A call that raises leaves the
  state as it was when the exception left the method.
\<close>

datatype command =
    Add_table str int
  | Remove_table int
  | Create_booking str str int datetime datetime datetime
  | Occupy_table_directly int
  | Release_table int
  | Cancel_booking int

fun exec :: "command \<Rightarrow> Restaurant \<times> heap \<Rightarrow> Restaurant \<times> heap" where
  "exec (Add_table nm n) (self, h) = snd (add_table nm n self h)"
| "exec (Remove_table tid) (self, h) = (snd (remove_table tid self h), h)"
| "exec (Create_booking gname ph tid start end now) (self, h) =
     snd (create_booking gname ph tid start end now self h)"
| "exec (Occupy_table_directly tid) (self, h) = (self, snd (occupy_table_directly tid self h))"
| "exec (Release_table tid) (self, h) = (self, snd (release_table tid self h))"
| "exec (Cancel_booking bid) (self, h) = (self, snd (cancel_booking bid self h))"

fun run :: "command list \<Rightarrow> Restaurant \<times> heap \<Rightarrow> Restaurant \<times> heap" where
  "run [] st = st"
| "run (c # cs) st = run cs (exec c st)"

text \<open>A heap with no objects yet; the cells hold a placeholder until they are allocated.\<close>

definition empty_heap :: heap where
  "empty_heap = \<lparr>table_at = (\<lambda>_. Table_init 0 [] 0), booking_at = (\<lambda>_. Booking_new),
     table_lim = 0, booking_lim = 0\<rparr>"

subsection \<open>Predicates of the statements\<close>

text \<open>Every stored booking, cancelled or not, refers to a table of the collection.\<close>

definition bookings_attached :: "Restaurant \<times> heap \<Rightarrow> bool" where
  "bookings_attached st =
     list_all (\<lambda>b. table (booking_at (snd st) b) \<in> set (priv_tables (fst st)))
       (priv_bookings (fst st))"

text \<open>
  The table that a \<open>remove_table\<close> call resolves to is not occupied and is referred to
  by a stored booking.
\<close>

definition removes_booked_table :: "int \<Rightarrow> Restaurant \<times> heap \<Rightarrow> bool" where
  "removes_booked_table tid st =
     (case find_table_by_id tid (fst st) (snd st) of
        None \<Rightarrow> False
      | Some tbl \<Rightarrow>
          \<not> is_occupied (table_at (snd st) tbl)
          \<and> list_ex (\<lambda>b. table (booking_at (snd st) b) = tbl) (priv_bookings (fst st)))"

text \<open>
  No \<open>remove_table\<close> call of the sequence is made on an unoccupied table that has a
  booking.
\<close>

fun removals_spare_booked :: "command list \<Rightarrow> Restaurant \<times> heap \<Rightarrow> bool" where
  "removals_spare_booked [] st = True"
| "removals_spare_booked (c # cs) st =
     ((case c of Remove_table tid \<Rightarrow> \<not> removes_booked_table tid st | _ \<Rightarrow> True)
      \<and> removals_spare_booked cs (exec c st))"

text \<open>
  Every stored booking is an allocated object whose id is below the next booking id.
\<close>

definition booking_ids_fresh :: "Restaurant \<times> heap \<Rightarrow> bool" where
  "booking_ids_fresh st =
     list_all (\<lambda>b. b < booking_lim (snd st)
                 \<and> booking_id (booking_at (snd st) b) < next_booking_id (fst st))
       (priv_bookings (fst st))"

text \<open>The table collection holds allocated tables only, each of them once.\<close>

definition tables_distinct :: "Restaurant \<times> heap \<Rightarrow> bool" where
  "tables_distinct st =
     (distinct (priv_tables (fst st))
      \<and> list_all (\<lambda>t. t < table_lim (snd st)) (priv_tables (fst st)))"

section \<open>Properties\<close>

lemmas model_defs = add_table_def new_Table_def Table_init_def Restaurant_init_def empty_heap_def
    create_booking_def find_table_by_id_def is_table_occupied_def bookings_def Booking_init_def
    bind_result_def guest_name_setter_def phone_setter_def start_time_setter_def end_time_setter_def
    Booking_new_def new_Booking_def remove_table_def list_remove_def strip_def isspace_def
    conflicts_def update_table_def update_booking_def cancel_def occupy_def release_def
    occupy_table_directly_def release_table_def cancel_booking_def

subsection \<open>Booking construction\<close>

text \<open>
  C4. Booking construction checks, in this order, that the guest name is not empty
  (empty or whitespace only), that the phone is not empty, that the start time is not
  before the current time, and that the end time is strictly after the start time. It
  raises for the first rule that is violated and produces a Booking only when all four
  hold; in particular it fails whenever the end time is not after the start time.
\<close>

theorem Booking_init_validation_order:
  "Booking_init bid gname ph tbl start end now =
     (if gname = [] \<or> strip gname = [] then Inl (ValueError ''Guest name cannot be empty'')
      else if ph = [] \<or> strip ph = [] then Inl (ValueError ''Phone cannot be empty'')
      else if start < now then Inl (ValueError ''Start time cannot be in the past'')
      else if end \<le> start then Inl (ValueError ''End time must be after start time'')
      else Inr \<lparr>booking_id = bid, guest_name = strip gname, phone = strip ph, table = tbl,
             start_time = start, end_time = end, is_active = True\<rparr>)
   \<and> (end \<le> start \<longrightarrow> (\<exists>err. Booking_init bid gname ph tbl start end now = Inl err))"
  by (simp add: Booking_init_def bind_result_def guest_name_setter_def phone_setter_def
      start_time_setter_def end_time_setter_def Booking_new_def)

text \<open>
  At an end time before the start time construction fails; a name with surrounding
  blanks, a start time not before the clock and a later end time give the Booking.
\<close>

theorem Booking_init_validation_order_witness:
  "(5::int) \<le> 10 \<and> (\<exists>err. Booking_init 1 [65] [43, 49] 0 10 5 0 = Inl err)
   \<and> Booking_init 1 [32, 65, 32] [43, 49] 7 10 20 0
       = Inr \<lparr>booking_id = 1, guest_name = [65], phone = [43, 49], table = 7,
             start_time = 10, end_time = 20, is_active = True\<rparr>"
  using Booking_init_validation_order [of 1 "[65]" "[43, 49]" 0 10 5 0]
    Booking_init_validation_order [of 1 "[32, 65, 32]" "[43, 49]" 7 10 20 0]
  by (simp add: strip_def isspace_def)

text \<open>
  C6. The interval order \<open>start_time < end_time\<close> is checked by the end time setter
  only. On a Booking constructed with the interval from 10 to 20, the start time setter
  accepts 30 and leaves a Booking that starts after it ends, whereas the end time setter
  refuses a value that is not after the start time.
\<close>

theorem start_time_setter_breaks_interval_order:
  "Booking_init 1 [65] [49] 0 10 20 0
     = Inr \<lparr>booking_id = 1, guest_name = [65], phone = [49], table = 0,
           start_time = 10, end_time = 20, is_active = True\<rparr>
   \<and> start_time_setter 0 30
        \<lparr>booking_id = 1, guest_name = [65], phone = [49], table = 0,
         start_time = 10, end_time = 20, is_active = True\<rparr>
     = Inr \<lparr>booking_id = 1, guest_name = [65], phone = [49], table = 0,
           start_time = 30, end_time = 20, is_active = True\<rparr>
   \<and> end_time_setter 5
        \<lparr>booking_id = 1, guest_name = [65], phone = [49], table = 0,
         start_time = 10, end_time = 20, is_active = True\<rparr>
     = Inl (ValueError ''End time must be after start time'')"
  by (simp add: model_defs)

subsection \<open>Adding a table\<close>

text \<open>
  C1. \<open>Table.__init__\<close> stores its arguments without going through the validating
  setters, so \<open>add_table\<close> accepts a whitespace-only name and zero seats: the table is
  appended and the table id is consumed, where the setters of the same class raise.
\<close>

theorem add_table_accepts_blank_name_and_zero_seats:
  "(case add_table [32] 0 Restaurant_init empty_heap of
      (res, self, h) \<Rightarrow>
        res = Inr 0 \<and> priv_tables self = [0] \<and> next_table_id self = 2
        \<and> table_at h 0 = \<lparr>table_id = 1, name = [32], seats = 0, is_occupied = False,
                            current_booking = None\<rparr>)
   \<and> name_setter [32] (Table_init 1 [84] 4) = Inl (ValueError ''Table name cannot be empty'')
   \<and> seats_setter 0 (Table_init 1 [84] 4) = Inl (ValueError ''Number of seats must be positive'')"
  by (simp add: add_table_def new_Table_def Table_init_def Restaurant_init_def empty_heap_def
      name_setter_def seats_setter_def strip_def isspace_def)

subsection \<open>The availability predicate\<close>

lemma overlap_scan_iff:
  "overlap_scan h tbl start end bs
     \<longleftrightarrow> (\<exists>b \<in> set bs. conflicts (booking_at h b) tbl start end) \<or> is_occupied (table_at h tbl)"
  by (induction bs) auto

lemma conflicts_iff:
  "conflicts booking tbl start end
     \<longleftrightarrow> table booking = tbl \<and> is_active booking
         \<and> start < end_time booking \<and> start_time booking < end"
  by (auto simp: conflicts_def)

lemma is_table_occupied_iff:
  "is_table_occupied tbl start end self h
     \<longleftrightarrow> is_occupied (table_at h tbl)
         \<or> (\<exists>b \<in> set (priv_bookings self). is_active (booking_at h b) \<and> table (booking_at h b) = tbl
               \<and> start < end_time (booking_at h b) \<and> start_time (booking_at h b) < end)"
  by (auto simp: is_table_occupied_def overlap_scan_iff conflicts_iff bookings_def)

text \<open>
  C2. A booking conflicts with the requested interval from \<open>start\<close> to \<open>end\<close> on a table
  exactly when it is on that table, active, and \<open>start < end_time\<close> and
  \<open>start_time < end\<close>; the availability predicate holds exactly when the occupied flag
  is set or some stored active booking conflicts. A request that starts when the booking
  ends, or ends when it starts, does not conflict; a request contained in the booking's
  interval and a request that overlaps it on either side do.
\<close>

theorem is_table_occupied_half_open:
  "(conflicts booking tbl start end
      \<longleftrightarrow> table booking = tbl \<and> is_active booking
          \<and> start < end_time booking \<and> start_time booking < end)
   \<and> (is_table_occupied tbl start end self h
      \<longleftrightarrow> is_occupied (table_at h tbl)
          \<or> (\<exists>b \<in> set (priv_bookings self). is_active (booking_at h b) \<and> table (booking_at h b) = tbl
                \<and> start < end_time (booking_at h b) \<and> start_time (booking_at h b) < end))
   \<and> (start = end_time booking \<or> end = start_time booking \<longrightarrow> \<not> conflicts booking tbl start end)
   \<and> (table booking = tbl \<and> is_active booking \<and> start_time booking \<le> start \<and> start < end
        \<and> end \<le> end_time booking \<longrightarrow> conflicts booking tbl start end)
   \<and> (table booking = tbl \<and> is_active booking \<and> start < start_time booking
        \<and> start_time booking < end \<and> end < end_time booking \<longrightarrow> conflicts booking tbl start end)
   \<and> (table booking = tbl \<and> is_active booking \<and> start_time booking < start
        \<and> start < end_time booking \<and> end_time booking < end \<longrightarrow> conflicts booking tbl start end)"
proof -
  have adjacent: "start = end_time booking \<or> end = start_time booking
      \<longrightarrow> \<not> conflicts booking tbl start end"
    by (auto simp: conflicts_iff)
  have contained: "table booking = tbl \<and> is_active booking \<and> start_time booking \<le> start
      \<and> start < end \<and> end \<le> end_time booking \<longrightarrow> conflicts booking tbl start end"
    by (auto simp: conflicts_iff)
  have left: "table booking = tbl \<and> is_active booking \<and> start < start_time booking
      \<and> start_time booking < end \<and> end < end_time booking \<longrightarrow> conflicts booking tbl start end"
    by (auto simp: conflicts_iff)
  have right: "table booking = tbl \<and> is_active booking \<and> start_time booking < start
      \<and> start < end_time booking \<and> end_time booking < end \<longrightarrow> conflicts booking tbl start end"
    by (auto simp: conflicts_iff)
  from conflicts_iff is_table_occupied_iff adjacent contained left right show ?thesis
    by blast
qed

text \<open>
  The overlap law, in minutes of the day: with the interval from 10:00 to 11:00 booked,
  the requests from 11:00 to 12:00 and from 9:00 to 10:00 are free, the requests from
  10:30 to 10:45, from 9:00 to 10:30 and from 10:30 to 12:00 are not.
\<close>

theorem is_table_occupied_half_open_witness:
  "(case run [Add_table [84] 4, Create_booking [65] [49] 1 600 660 0] (Restaurant_init, empty_heap) of
      (self, h) \<Rightarrow>
        priv_bookings self = [0] \<and> table (booking_at h 0) = 0 \<and> is_active (booking_at h 0)
        \<and> start_time (booking_at h 0) = 600 \<and> end_time (booking_at h 0) = 660
        \<and> \<not> is_occupied (table_at h 0)
        \<and> \<not> is_table_occupied 0 660 720 self h
        \<and> \<not> is_table_occupied 0 540 600 self h
        \<and> is_table_occupied 0 630 645 self h
        \<and> is_table_occupied 0 540 630 self h
        \<and> is_table_occupied 0 630 720 self h
        \<and> \<not> conflicts (booking_at h 0) 0 660 720
        \<and> conflicts (booking_at h 0) 0 630 645
        \<and> conflicts (booking_at h 0) 0 540 630)"
proof -
  obtain self h where st:
    "run [Add_table [84] 4, Create_booking [65] [49] 1 600 660 0] (Restaurant_init, empty_heap)
       = (self, h)"
    by (cases "run [Add_table [84] 4, Create_booking [65] [49] 1 600 660 0]
         (Restaurant_init, empty_heap)")
  have pb: "priv_bookings self = [0]"
    using st by (auto simp add: model_defs)
  have b0: "booking_at h 0 = \<lparr>booking_id = 1, guest_name = [65], phone = [49], table = 0,
             start_time = 600, end_time = 660, is_active = True\<rparr>"
    using st by (auto simp add: model_defs)
  have t0: "\<not> is_occupied (table_at h 0)"
    using st by (auto simp add: model_defs)
  show ?thesis
    unfolding st
    using is_table_occupied_half_open [of "booking_at h 0" 0 660 720 self h]
      is_table_occupied_half_open [of "booking_at h 0" 0 540 600 self h]
      is_table_occupied_half_open [of "booking_at h 0" 0 630 645 self h]
      is_table_occupied_half_open [of "booking_at h 0" 0 540 630 self h]
      is_table_occupied_half_open [of "booking_at h 0" 0 630 720 self h]
    by (simp add: pb b0 t0)
qed

subsection \<open>Looking a table up and removing it\<close>

lemma find_table_by_id_None:
  "find_table_by_id tid self h = None
     \<longleftrightarrow> (\<forall>t \<in> set (priv_tables self). table_id (table_at h t) \<noteq> tid)"
  by (auto simp: find_table_by_id_def find_None_iff)

lemma find_Some_split:
  "find P xs = Some x \<Longrightarrow> \<exists>ys zs. xs = ys @ x # zs \<and> (\<forall>y \<in> set ys. \<not> P y) \<and> P x"
proof (induction xs)
  case Nil
  then show ?case by simp
next
  case (Cons a xs)
  show ?case
  proof (cases "P a")
    case True
    with Cons.prems have "a # xs = [] @ x # xs \<and> (\<forall>y \<in> set []. \<not> P y) \<and> P x" by simp
    then show ?thesis by blast
  next
    case False
    with Cons obtain ys zs where "xs = ys @ x # zs" "\<forall>y \<in> set ys. \<not> P y" "P x" by auto
    with False have "a # xs = (a # ys) @ x # zs \<and> (\<forall>y \<in> set (a # ys). \<not> P y) \<and> P x" by simp
    then show ?thesis by blast
  qed
qed

lemma find_table_by_id_Some:
  assumes "find_table_by_id tid self h = Some tbl"
  shows "\<exists>xs ys. priv_tables self = xs @ tbl # ys \<and> tbl \<notin> set xs
           \<and> (\<forall>t \<in> set xs. table_id (table_at h t) \<noteq> tid) \<and> table_id (table_at h tbl) = tid"
proof -
  from assms obtain xs ys where s: "priv_tables self = xs @ tbl # ys"
      "\<forall>t \<in> set xs. table_id (table_at h t) \<noteq> tid" "table_id (table_at h tbl) = tid"
    unfolding find_table_by_id_def using find_Some_split [of "\<lambda>t. table_id (table_at h t) = tid"]
    by blast
  then have "tbl \<notin> set xs" by blast
  with s show ?thesis by blast
qed

lemma remove1_split: "x \<notin> set xs \<Longrightarrow> remove1 x (xs @ x # ys) = xs @ ys"
  by (induction xs) auto

text \<open>
  C9. \<open>remove_table\<close> never raises. When no table of the collection has the id, or the
  table found has its occupied flag set, it returns false and the Restaurant is
  unchanged. Otherwise it returns true and the collection loses the table found, which
  is the first one with that id, and nothing else: the tables before and after it stay
  in their order.
\<close>

theorem remove_table_result:
  "(find_table_by_id tid self h = None \<longrightarrow> remove_table tid self h = (Inr False, self))
   \<and> (find_table_by_id tid self h = Some tbl \<and> is_occupied (table_at h tbl)
        \<longrightarrow> remove_table tid self h = (Inr False, self))
   \<and> (find_table_by_id tid self h = Some tbl \<and> \<not> is_occupied (table_at h tbl)
        \<longrightarrow> (\<exists>xs ys. priv_tables self = xs @ tbl # ys \<and> tbl \<notin> set xs
               \<and> remove_table tid self h = (Inr True, self\<lparr>priv_tables := xs @ ys\<rparr>)))
   \<and> (\<forall>err. fst (remove_table tid self h) \<noteq> Inl err)
   \<and> (find_table_by_id tid self h = None
        \<longleftrightarrow> (\<forall>t \<in> set (priv_tables self). table_id (table_at h t) \<noteq> tid))
   \<and> (find_table_by_id tid self h = Some tbl
        \<longrightarrow> tbl \<in> set (priv_tables self) \<and> table_id (table_at h tbl) = tid)"
proof -
  have not_found: "find_table_by_id tid self h = None \<longrightarrow> remove_table tid self h = (Inr False, self)"
    by (simp add: remove_table_def)
  have occupied: "find_table_by_id tid self h = Some tbl \<and> is_occupied (table_at h tbl)
        \<longrightarrow> remove_table tid self h = (Inr False, self)"
    by (simp add: remove_table_def)
  have removed: "find_table_by_id tid self h = Some tbl \<and> \<not> is_occupied (table_at h tbl)
        \<longrightarrow> (\<exists>xs ys. priv_tables self = xs @ tbl # ys \<and> tbl \<notin> set xs
               \<and> remove_table tid self h = (Inr True, self\<lparr>priv_tables := xs @ ys\<rparr>))"
  proof
    assume a: "find_table_by_id tid self h = Some tbl \<and> \<not> is_occupied (table_at h tbl)"
    then obtain xs ys where s: "priv_tables self = xs @ tbl # ys" "tbl \<notin> set xs"
      using find_table_by_id_Some by blast
    then have "remove_table tid self h = (Inr True, self\<lparr>priv_tables := xs @ ys\<rparr>)"
      using a by (simp add: remove_table_def list_remove_def remove1_split)
    with s show "\<exists>xs ys. priv_tables self = xs @ tbl # ys \<and> tbl \<notin> set xs
               \<and> remove_table tid self h = (Inr True, self\<lparr>priv_tables := xs @ ys\<rparr>)"
      by blast
  qed
  have no_raise: "\<forall>err. fst (remove_table tid self h) \<noteq> Inl err"
  proof (cases "find_table_by_id tid self h")
    case None
    then show ?thesis by (simp add: remove_table_def)
  next
    case (Some t)
    then have "t \<in> set (priv_tables self)"
      using find_table_by_id_Some by fastforce
    with Some show ?thesis by (simp add: remove_table_def list_remove_def)
  qed
  have found: "find_table_by_id tid self h = Some tbl
        \<longrightarrow> tbl \<in> set (priv_tables self) \<and> table_id (table_at h tbl) = tid"
    using find_table_by_id_Some by fastforce
  from not_found occupied removed no_raise found find_table_by_id_None [of tid self h]
  show ?thesis by blast
qed

text \<open>
  With two tables, the second occupied by a walk-in: an unknown id and the occupied
  table are refused, the free table is removed.
\<close>

theorem remove_table_result_witness:
  "(case run [Add_table [84] 4, Add_table [85] 2, Occupy_table_directly 2] (Restaurant_init, empty_heap) of
      (self, h) \<Rightarrow>
        priv_tables self = [0, 1]
        \<and> find_table_by_id 7 self h = None \<and> remove_table 7 self h = (Inr False, self)
        \<and> find_table_by_id 2 self h = Some 1 \<and> is_occupied (table_at h 1)
        \<and> remove_table 2 self h = (Inr False, self)
        \<and> find_table_by_id 1 self h = Some 0 \<and> \<not> is_occupied (table_at h 0)
        \<and> remove_table 1 self h = (Inr True, self\<lparr>priv_tables := [1]\<rparr>))"
proof -
  obtain self h where st:
    "run [Add_table [84] 4, Add_table [85] 2, Occupy_table_directly 2] (Restaurant_init, empty_heap) = (self, h)"
    by (cases "run [Add_table [84] 4, Add_table [85] 2, Occupy_table_directly 2] (Restaurant_init, empty_heap)")
  have pt: "priv_tables self = [0, 1]"
    using st by (auto simp add: model_defs)
  have t0: "table_at h 0 = \<lparr>table_id = 1, name = [84], seats = 4, is_occupied = False, current_booking = None\<rparr>"
    using st by (auto simp add: model_defs)
  have t1: "table_at h (Suc 0) = \<lparr>table_id = 2, name = [85], seats = 2, is_occupied = True, current_booking = None\<rparr>"
    using st by (auto simp add: model_defs)
  have f7: "find_table_by_id 7 self h = None"
    by (simp add: find_table_by_id_def pt t0 t1)
  have f2: "find_table_by_id 2 self h = Some 1"
    by (simp add: find_table_by_id_def pt t0 t1)
  have f1: "find_table_by_id 1 self h = Some 0"
    by (simp add: find_table_by_id_def pt t0 t1)
  have r1: "remove_table 1 self h = (Inr True, self\<lparr>priv_tables := [1]\<rparr>)"
    by (simp add: remove_table_def list_remove_def f1 t0 pt)
  show ?thesis
    unfolding st
    using remove_table_result [of 7 self h 0] remove_table_result [of 2 self h 1]
      remove_table_result [of 1 self h 0] f7 f2 f1 r1
    by (simp add: t0 t1 pt)
qed

subsection \<open>Cancelling a booking\<close>

text \<open>
  C7. \<open>cancel\<close> sets the booking's active flag to false and changes nothing else of
  the booking. The booking's table is released when its current booking is this very
  booking; when it is another booking or none (a walk-in, or a free table) no table
  changes. No other table is ever changed. \<open>cancel_booking\<close> applies \<open>cancel\<close> to
  a stored active booking with the given id when it returns true, and changes nothing
  when it returns false.
\<close>

theorem cancel_releases_only_own_table:
  "(let tbl = table (booking_at h self); h' = cancel self h in
      booking_at h' = (booking_at h)(self := (booking_at h self)\<lparr>is_active := False\<rparr>)
      \<and> \<not> is_active (booking_at h' self)
      \<and> table_at h' tbl = (if current_booking (table_at h tbl) = Some self
                            then release (table_at h tbl) else table_at h tbl)
      \<and> (current_booking (table_at h tbl) = Some self
           \<longrightarrow> \<not> is_occupied (table_at h' tbl) \<and> current_booking (table_at h' tbl) = None)
      \<and> (current_booking (table_at h tbl) \<noteq> Some self \<longrightarrow> table_at h' = table_at h)
      \<and> (\<forall>t. t \<noteq> tbl \<longrightarrow> table_at h' t = table_at h t)
      \<and> table_lim h' = table_lim h \<and> booking_lim h' = booking_lim h)
   \<and> (fst (cancel_booking bid r h)
        \<longrightarrow> (\<exists>b \<in> set (priv_bookings r). booking_id (booking_at h b) = bid
               \<and> is_active (booking_at h b) \<and> snd (cancel_booking bid r h) = cancel b h))
   \<and> (\<not> fst (cancel_booking bid r h) \<longrightarrow> snd (cancel_booking bid r h) = h)"
proof -
  have own: "let tbl = table (booking_at h self); h' = cancel self h in
      booking_at h' = (booking_at h)(self := (booking_at h self)\<lparr>is_active := False\<rparr>)
      \<and> \<not> is_active (booking_at h' self)
      \<and> table_at h' tbl = (if current_booking (table_at h tbl) = Some self
                            then release (table_at h tbl) else table_at h tbl)
      \<and> (current_booking (table_at h tbl) = Some self
           \<longrightarrow> \<not> is_occupied (table_at h' tbl) \<and> current_booking (table_at h' tbl) = None)
      \<and> (current_booking (table_at h tbl) \<noteq> Some self \<longrightarrow> table_at h' = table_at h)
      \<and> (\<forall>t. t \<noteq> tbl \<longrightarrow> table_at h' t = table_at h t)
      \<and> table_lim h' = table_lim h \<and> booking_lim h' = booking_lim h"
    by (simp add: Let_def cancel_def update_booking_def update_table_def release_def)
  have accepted: "fst (cancel_booking bid r h)
        \<longrightarrow> (\<exists>b \<in> set (priv_bookings r). booking_id (booking_at h b) = bid
               \<and> is_active (booking_at h b) \<and> snd (cancel_booking bid r h) = cancel b h)"
    by (auto simp: cancel_booking_def find_Some_iff split: option.splits if_splits)
  have refused: "\<not> fst (cancel_booking bid r h) \<longrightarrow> snd (cancel_booking bid r h) = h"
    by (auto simp: cancel_booking_def split: option.splits if_splits)
  from own accepted refused show ?thesis by blast
qed

text \<open>
  One table with two bookings \<open>0\<close> and \<open>1\<close>. After \<open>table.occupy\<close> with booking
  \<open>1\<close>, cancelling booking \<open>0\<close> leaves the table occupied by booking \<open>1\<close>, and
  cancelling booking \<open>1\<close> releases it; after a walk-in occupation, cancelling booking
  \<open>0\<close> leaves the table occupied.
\<close>

theorem cancel_releases_only_own_table_witness:
  "(case run [Add_table [84] 4, Create_booking [65] [49] 1 10 20 0, Create_booking [66] [50] 1 30 40 0]
          (Restaurant_init, empty_heap) of
      (self, h) \<Rightarrow>
        (let h1 = update_table 0 (occupy (Some 1)) h; h2 = update_table 0 (occupy None) h in
           table (booking_at h1 0) = 0 \<and> table (booking_at h1 1) = 0
           \<and> current_booking (table_at h1 0) = Some 1
           \<and> \<not> is_active (booking_at (cancel 0 h1) 0)
           \<and> is_occupied (table_at (cancel 0 h1) 0)
           \<and> current_booking (table_at (cancel 0 h1) 0) = Some 1
           \<and> \<not> is_active (booking_at (cancel 1 h1) 1)
           \<and> \<not> is_occupied (table_at (cancel 1 h1) 0)
           \<and> current_booking (table_at (cancel 1 h1) 0) = None
           \<and> is_occupied (table_at (cancel 0 h2) 0)
           \<and> current_booking (table_at (cancel 0 h2) 0) = None
           \<and> cancel_booking 1 self h1 = (True, cancel 0 h1)
           \<and> cancel_booking 5 self h1 = (False, h1)))"
proof -
  obtain self h where st:
    "run [Add_table [84] 4, Create_booking [65] [49] 1 10 20 0, Create_booking [66] [50] 1 30 40 0]
       (Restaurant_init, empty_heap) = (self, h)"
    by (cases "run [Add_table [84] 4, Create_booking [65] [49] 1 10 20 0,
         Create_booking [66] [50] 1 30 40 0] (Restaurant_init, empty_heap)")
  have pb: "priv_bookings self = [0, 1]"
    using st by (auto simp add: model_defs)
  have b0: "booking_at h 0 = \<lparr>booking_id = 1, guest_name = [65], phone = [49], table = 0,
             start_time = 10, end_time = 20, is_active = True\<rparr>"
    using st by (auto simp add: model_defs)
  have b1: "booking_at h (Suc 0) = \<lparr>booking_id = 2, guest_name = [66], phone = [50], table = 0,
             start_time = 30, end_time = 40, is_active = True\<rparr>"
    using st by (auto simp add: model_defs)
  define h1 where "h1 = update_table 0 (occupy (Some 1)) h"
  define h2 where "h2 = update_table 0 (occupy None) h"
  have h1: "booking_at h1 = booking_at h" "table_at h1 0 = occupy (Some 1) (table_at h 0)"
    by (simp_all add: h1_def update_table_def)
  have h2: "booking_at h2 = booking_at h" "table_at h2 0 = occupy None (table_at h 0)"
    by (simp_all add: h2_def update_table_def)
  have cb1: "fst (cancel_booking 1 self h1)" and cb5: "\<not> fst (cancel_booking 5 self h1)"
    by (simp_all add: cancel_booking_def pb h1 b0 b1)
  have "table (booking_at h1 0) = 0 \<and> table (booking_at h1 1) = 0
           \<and> current_booking (table_at h1 0) = Some 1
           \<and> \<not> is_active (booking_at (cancel 0 h1) 0)
           \<and> is_occupied (table_at (cancel 0 h1) 0)
           \<and> current_booking (table_at (cancel 0 h1) 0) = Some 1
           \<and> \<not> is_active (booking_at (cancel 1 h1) 1)
           \<and> \<not> is_occupied (table_at (cancel 1 h1) 0)
           \<and> current_booking (table_at (cancel 1 h1) 0) = None
           \<and> is_occupied (table_at (cancel 0 h2) 0)
           \<and> current_booking (table_at (cancel 0 h2) 0) = None
           \<and> cancel_booking 1 self h1 = (True, cancel 0 h1)
           \<and> cancel_booking 5 self h1 = (False, h1)"
    using cancel_releases_only_own_table [of h1 0 1 self]
      cancel_releases_only_own_table [of h1 1 5 self]
      cancel_releases_only_own_table [of h2 0 5 self] cb1 cb5
    by (simp add: Let_def h1 h2 b0 b1 pb occupy_def release_def prod_eq_iff)
  then show ?thesis
    unfolding st by (simp add: Let_def h1_def h2_def)
qed

subsection \<open>Creating a booking\<close>

text \<open>
  C10. When \<open>create_booking\<close> raises, the Restaurant and the heap are as before the
  call: no booking is appended and the next booking id is not incremented. It raises
  when the table is known and available and the guest name or the phone is empty, the
  start time is before the clock, or the end time is not after the start time; the
  error is the one Booking construction raised.
\<close>

theorem create_booking_error_leaves_state:
  "(create_booking gname ph tid start end now self h = (Inl err, self', h')
      \<longrightarrow> self' = self \<and> h' = h)
   \<and> (find_table_by_id tid self h = Some tbl \<and> \<not> is_table_occupied tbl start end self h
       \<and> (gname = [] \<or> strip gname = [] \<or> ph = [] \<or> strip ph = [] \<or> start < now \<or> end \<le> start)
      \<longrightarrow> (\<exists>e. create_booking gname ph tid start end now self h = (Inl e, self, h)))
   \<and> (find_table_by_id tid self h = Some tbl \<and> \<not> is_table_occupied tbl start end self h
       \<and> Booking_init (next_booking_id self) gname ph tbl start end now = Inl err
      \<longrightarrow> create_booking gname ph tid start end now self h = (Inl err, self, h))"
proof -
  have unchanged: "create_booking gname ph tid start end now self h = (Inl err, self', h')
      \<longrightarrow> self' = self \<and> h' = h"
    by (auto simp: create_booking_def new_Booking_def split: option.splits if_splits sum.splits)
  have propagated: "find_table_by_id tid self h = Some tbl \<and> \<not> is_table_occupied tbl start end self h
       \<and> Booking_init (next_booking_id self) gname ph tbl start end now = Inl err
      \<longrightarrow> create_booking gname ph tid start end now self h = (Inl err, self, h)"
    by (simp add: create_booking_def)
  have raised: "gname = [] \<or> strip gname = [] \<or> ph = [] \<or> strip ph = [] \<or> start < now \<or> end \<le> start
      \<Longrightarrow> \<exists>e. Booking_init (next_booking_id self) gname ph tbl start end now = Inl e"
    by (auto simp: Booking_init_def bind_result_def guest_name_setter_def phone_setter_def
        start_time_setter_def end_time_setter_def)
  have invalid: "find_table_by_id tid self h = Some tbl \<and> \<not> is_table_occupied tbl start end self h
       \<and> (gname = [] \<or> strip gname = [] \<or> ph = [] \<or> strip ph = [] \<or> start < now \<or> end \<le> start)
      \<longrightarrow> (\<exists>e. create_booking gname ph tid start end now self h = (Inl e, self, h))"
  proof
    assume a: "find_table_by_id tid self h = Some tbl \<and> \<not> is_table_occupied tbl start end self h
       \<and> (gname = [] \<or> strip gname = [] \<or> ph = [] \<or> strip ph = [] \<or> start < now \<or> end \<le> start)"
    then obtain e where "Booking_init (next_booking_id self) gname ph tbl start end now = Inl e"
      using raised by blast
    with a have "create_booking gname ph tid start end now self h = (Inl e, self, h)"
      by (simp add: create_booking_def)
    then show "\<exists>e. create_booking gname ph tid start end now self h = (Inl e, self, h)" ..
  qed
  from unchanged invalid propagated show ?thesis by blast
qed

text \<open>
  On a free table each of the four violations raises its error and leaves the state
  as it was.
\<close>

theorem create_booking_error_leaves_state_witness:
  "(case run [Add_table [84] 4] (Restaurant_init, empty_heap) of
      (self, h) \<Rightarrow>
        find_table_by_id 1 self h = Some 0 \<and> \<not> is_table_occupied 0 10 20 self h
        \<and> create_booking [] [49] 1 10 20 0 self h
             = (Inl (ValueError ''Guest name cannot be empty''), self, h)
        \<and> create_booking [65] [32] 1 10 20 0 self h
             = (Inl (ValueError ''Phone cannot be empty''), self, h)
        \<and> create_booking [65] [49] 1 10 20 15 self h
             = (Inl (ValueError ''Start time cannot be in the past''), self, h)
        \<and> \<not> is_table_occupied 0 20 10 self h
        \<and> create_booking [65] [49] 1 20 10 0 self h
             = (Inl (ValueError ''End time must be after start time''), self, h))"
proof -
  obtain self h where st: "run [Add_table [84] 4] (Restaurant_init, empty_heap) = (self, h)"
    by (cases "run [Add_table [84] 4] (Restaurant_init, empty_heap)")
  have pt: "priv_tables self = [0]" and pb: "priv_bookings self = []"
    using st by (auto simp add: model_defs)
  have t0: "table_at h 0 = \<lparr>table_id = 1, name = [84], seats = 4, is_occupied = False,
             current_booking = None\<rparr>"
    using st by (auto simp add: model_defs)
  have f1: "find_table_by_id 1 self h = Some 0"
    by (simp add: find_table_by_id_def pt t0)
  have free: "\<not> is_table_occupied 0 s e self h" for s e
    by (simp add: is_table_occupied_def bookings_def pb t0)
  have i1: "Booking_init (next_booking_id self) [] [49] 0 10 20 0
      = Inl (ValueError ''Guest name cannot be empty'')"
    and i2: "Booking_init (next_booking_id self) [65] [32] 0 10 20 0
      = Inl (ValueError ''Phone cannot be empty'')"
    and i3: "Booking_init (next_booking_id self) [65] [49] 0 10 20 15
      = Inl (ValueError ''Start time cannot be in the past'')"
    and i4: "Booking_init (next_booking_id self) [65] [49] 0 20 10 0
      = Inl (ValueError ''End time must be after start time'')"
    by (simp_all add: Booking_init_def bind_result_def guest_name_setter_def phone_setter_def
        start_time_setter_def end_time_setter_def strip_def isspace_def)
  show ?thesis
    unfolding st
    using create_booking_error_leaves_state
        [of "[]" "[49]" 1 10 20 0 self h "ValueError ''Guest name cannot be empty''" self h 0]
      create_booking_error_leaves_state
        [of "[65]" "[32]" 1 10 20 0 self h "ValueError ''Phone cannot be empty''" self h 0]
      create_booking_error_leaves_state
        [of "[65]" "[49]" 1 10 20 15 self h "ValueError ''Start time cannot be in the past''" self h 0]
      create_booking_error_leaves_state
        [of "[65]" "[49]" 1 20 10 0 self h "ValueError ''End time must be after start time''" self h 0]
      f1 free i1 i2 i3 i4
    by simp
qed

text \<open>
  C8. \<open>create_booking\<close>, successful or not, changes no Table object and not the table
  collection: the target table's occupied flag and current booking are as before. Of
  the Restaurant operations only \<open>occupy_table_directly\<close> sets an occupied flag: after
  any other operation a table that is occupied was occupied before.
\<close>

theorem create_booking_keeps_table_state:
  "(create_booking gname ph tid start end now self h = (res, self', h')
      \<longrightarrow> table_at h' = table_at h \<and> table_lim h' = table_lim h
          \<and> priv_tables self' = priv_tables self)
   \<and> ((\<forall>i. c \<noteq> Occupy_table_directly i) \<and> exec c (r, hp) = (r', hp')
       \<and> is_occupied (table_at hp' t) \<longrightarrow> is_occupied (table_at hp t))"
proof -
  have frame: "create_booking gname ph tid start end now self h = (res, self', h')
      \<longrightarrow> table_at h' = table_at h \<and> table_lim h' = table_lim h
          \<and> priv_tables self' = priv_tables self"
    by (auto simp: create_booking_def new_Booking_def split: option.splits if_splits sum.splits)
  have only_occupy: "is_occupied (table_at hp t)"
    if c: "\<forall>i. c \<noteq> Occupy_table_directly i" and e: "exec c (r, hp) = (r', hp')"
      and o: "is_occupied (table_at hp' t)"
  proof (cases c)
    case (Add_table nm n)
    with e o show ?thesis
      by (auto simp: add_table_def new_Table_def Table_init_def split: if_splits)
  next
    case (Remove_table i)
    with e o show ?thesis by simp
  next
    case (Create_booking g p i s e' n)
    with e o show ?thesis
      by (auto simp: create_booking_def new_Booking_def split: option.splits if_splits sum.splits)
  next
    case (Occupy_table_directly i)
    with c show ?thesis by simp
  next
    case (Release_table i)
    with e o show ?thesis
      by (auto simp: release_table_def update_table_def release_def
          split: option.splits if_splits)
  next
    case (Cancel_booking i)
    with e o show ?thesis
      by (auto simp: cancel_booking_def cancel_def update_table_def update_booking_def release_def
          Let_def split: option.splits if_splits)
  qed
  from frame only_occupy show ?thesis by blast
qed

text \<open>
  A successful booking on a free table leaves the table free with no current booking,
  whereas \<open>occupy_table_directly\<close> sets the flag; a table occupied after
  \<open>add_table\<close> was occupied before.
\<close>

theorem create_booking_keeps_table_state_witness:
  "(case run [Add_table [84] 4] (Restaurant_init, empty_heap) of
      (self, h) \<Rightarrow>
        (case create_booking [65] [49] 1 10 20 0 self h of
           (res, self', h') \<Rightarrow>
             res = Inr (Some 0) \<and> priv_bookings self' = [0] \<and> table (booking_at h' 0) = 0
             \<and> \<not> is_occupied (table_at h 0) \<and> current_booking (table_at h 0) = None
             \<and> \<not> is_occupied (table_at h' 0) \<and> current_booking (table_at h' 0) = None
             \<and> exec (Create_booking [65] [49] 1 10 20 0) (self, h) = (self', h')
             \<and> is_occupied (table_at (snd (exec (Occupy_table_directly 1) (self, h))) 0)))
   \<and> (case run [Add_table [84] 4, Occupy_table_directly 1] (Restaurant_init, empty_heap) of
        (r, hp) \<Rightarrow>
          is_occupied (table_at (snd (exec (Add_table [85] 2) (r, hp))) 0)
          \<and> is_occupied (table_at hp 0))"
proof -
  obtain r hp where st2:
    "run [Add_table [84] 4, Occupy_table_directly 1] (Restaurant_init, empty_heap) = (r, hp)"
    by (cases "run [Add_table [84] 4, Occupy_table_directly 1] (Restaurant_init, empty_heap)")
  obtain r' hp' where ex2: "exec (Add_table [85] 2) (r, hp) = (r', hp')"
    by (cases "exec (Add_table [85] 2) (r, hp)")
  have occ2: "is_occupied (table_at hp' 0)"
    using st2 ex2 by (auto simp add: model_defs)
  obtain self h where st: "run [Add_table [84] 4] (Restaurant_init, empty_heap) = (self, h)"
    by (cases "run [Add_table [84] 4] (Restaurant_init, empty_heap)")
  obtain res self' h' where cb: "create_booking [65] [49] 1 10 20 0 self h = (res, self', h')"
    by (cases "create_booking [65] [49] 1 10 20 0 self h")
  have pt: "priv_tables self = [0]" and pb: "priv_bookings self = []"
    using st by (auto simp add: model_defs)
  have t0: "table_at h 0 = \<lparr>table_id = 1, name = [84], seats = 4, is_occupied = False,
             current_booking = None\<rparr>"
    using st by (auto simp add: model_defs)
  have bl: "booking_lim h = 0"
    using st by (auto simp add: model_defs)
  have f1: "find_table_by_id 1 self h = Some 0"
    by (simp add: find_table_by_id_def pt t0)
  have free: "\<not> is_table_occupied 0 10 20 self h"
    by (simp add: is_table_occupied_def bookings_def pb t0)
  have res: "res = Inr (Some 0)" "priv_bookings self' = [0]" "table (booking_at h' 0) = 0"
    using cb
    by (auto simp add: create_booking_def f1 free new_Booking_def pb bl Booking_init_def
        bind_result_def guest_name_setter_def phone_setter_def start_time_setter_def
        end_time_setter_def strip_def isspace_def Booking_new_def)
  have occ: "is_occupied (table_at (snd (exec (Occupy_table_directly 1) (self, h))) 0)"
    by (simp add: occupy_table_directly_def f1 t0 update_table_def occupy_def)
  show ?thesis
    unfolding st st2
    using create_booking_keeps_table_state
        [of "[65]" "[49]" 1 10 20 0 self h res self' h' "Create_booking [65] [49] 1 10 20 0"
          self h self' h' 0]
      create_booking_keeps_table_state
        [of "[65]" "[49]" 1 10 20 0 self h res self' h' "Add_table [85] 2" r hp r' hp' 0]
      cb res occ ex2 occ2
    by (simp add: t0)
qed

lemma booking_ids_fresh_exec: "booking_ids_fresh st \<Longrightarrow> booking_ids_fresh (exec c st)"
proof (cases st)
  case (Pair self h)
  assume inv: "booking_ids_fresh st"
  show ?thesis
  proof (cases c)
    case (Add_table nm n)
    with Pair inv show ?thesis
      by (auto simp: booking_ids_fresh_def add_table_def new_Table_def list_all_iff)
  next
    case (Remove_table i)
    with Pair inv show ?thesis
      by (auto simp: booking_ids_fresh_def remove_table_def list_remove_def list_all_iff
          split: option.splits)
  next
    case (Create_booking g p i s e n)
    have id: "booking_id obj = bid" if "Booking_init bid g p t s e n = Inr obj" for obj bid t
      using that
      by (auto simp: Booking_init_def bind_result_def guest_name_setter_def phone_setter_def
          start_time_setter_def end_time_setter_def Booking_new_def split: if_splits)
    from Create_booking Pair inv show ?thesis
      by (auto simp: booking_ids_fresh_def create_booking_def new_Booking_def list_all_iff
          less_Suc_eq dest: id split: option.splits sum.splits)
  next
    case (Occupy_table_directly i)
    with Pair inv show ?thesis
      by (auto simp: booking_ids_fresh_def occupy_table_directly_def update_table_def list_all_iff
          split: option.splits)
  next
    case (Release_table i)
    with Pair inv show ?thesis
      by (auto simp: booking_ids_fresh_def release_table_def update_table_def list_all_iff
          split: option.splits)
  next
    case (Cancel_booking i)
    with Pair inv show ?thesis
      by (auto simp: booking_ids_fresh_def cancel_booking_def cancel_def update_table_def
          update_booking_def Let_def list_all_iff split: option.splits)
  qed
qed

lemma booking_ids_fresh_run: "booking_ids_fresh st \<Longrightarrow> booking_ids_fresh (run cs st)"
  by (induction cs arbitrary: st) (auto simp: booking_ids_fresh_exec)

lemma booking_ids_fresh_init: "booking_ids_fresh (Restaurant_init, h0)"
  by (simp add: booking_ids_fresh_def Restaurant_init_def)

lemma Booking_init_id:
  "Booking_init bid g p t s e n = Inr obj \<Longrightarrow> booking_id obj = bid \<and> table obj = t"
  by (auto simp: Booking_init_def bind_result_def guest_name_setter_def phone_setter_def
      start_time_setter_def end_time_setter_def Booking_new_def split: if_splits)

text \<open>
  C5 as stated, at a call it does not cover: the table is known and free, the guest name
  is a single blank; \<open>create_booking\<close> neither returns none nor appends a booking,
  it raises.
\<close>

theorem create_booking_blank_guest_counterexample:
  "(case run [Add_table [84] 4] (Restaurant_init, empty_heap) of
      (self, h) \<Rightarrow>
        find_table_by_id 1 self h = Some 0 \<and> \<not> is_table_occupied 0 10 20 self h
        \<and> priv_bookings self = [] \<and> next_booking_id self = 1
        \<and> create_booking [32] [49] 1 10 20 0 self h
             = (Inl (ValueError ''Guest name cannot be empty''), self, h))"
  by (simp add: model_defs)

text \<open>
  C5, amended. \<open>create_booking\<close> returns none and changes nothing when the table id
  resolves to no table of the collection, and when the table found is occupied for the
  interval, that is, its occupied flag is set or a stored active booking on it overlaps
  the interval. Otherwise Booking construction decides: when it raises, the error is
  propagated and nothing changes; when it succeeds, the new Booking carries the next
  booking id and the table found, it is stored as a new object, appended to the booking
  collection and returned, and the next booking id is incremented. In every state that
  Restaurant operations reach from a new Restaurant, no stored booking has that id.
\<close>

theorem create_booking_result:
  "(find_table_by_id tid self h = None
      \<longrightarrow> create_booking gname ph tid start end now self h = (Inr None, self, h))
   \<and> (find_table_by_id tid self h = Some tbl \<and> is_table_occupied tbl start end self h
      \<longrightarrow> create_booking gname ph tid start end now self h = (Inr None, self, h))
   \<and> (is_table_occupied tbl start end self h
      \<longleftrightarrow> is_occupied (table_at h tbl)
          \<or> (\<exists>b \<in> set (priv_bookings self). is_active (booking_at h b) \<and> table (booking_at h b) = tbl
                \<and> start < end_time (booking_at h b) \<and> start_time (booking_at h b) < end))
   \<and> (find_table_by_id tid self h = Some tbl \<and> \<not> is_table_occupied tbl start end self h
       \<and> Booking_init (next_booking_id self) gname ph tbl start end now = Inl err
      \<longrightarrow> create_booking gname ph tid start end now self h = (Inl err, self, h))
   \<and> (find_table_by_id tid self h = Some tbl \<and> \<not> is_table_occupied tbl start end self h
       \<and> Booking_init (next_booking_id self) gname ph tbl start end now = Inr obj
      \<longrightarrow> create_booking gname ph tid start end now self h
            = (Inr (Some (booking_lim h)),
               self\<lparr>priv_bookings := priv_bookings self @ [booking_lim h],
                    next_booking_id := next_booking_id self + 1\<rparr>,
               h\<lparr>booking_at := (booking_at h)(booking_lim h := obj),
                 booking_lim := Suc (booking_lim h)\<rparr>)
          \<and> booking_id obj = next_booking_id self \<and> table obj = tbl
          \<and> ((self, h) = run cs (Restaurant_init, h0)
               \<longrightarrow> (\<forall>b \<in> set (priv_bookings self).
                      b \<noteq> booking_lim h \<and> booking_id (booking_at h b) \<noteq> next_booking_id self)))"
proof -
  have unknown: "find_table_by_id tid self h = None
      \<longrightarrow> create_booking gname ph tid start end now self h = (Inr None, self, h)"
    by (simp add: create_booking_def)
  have occupied: "find_table_by_id tid self h = Some tbl \<and> is_table_occupied tbl start end self h
      \<longrightarrow> create_booking gname ph tid start end now self h = (Inr None, self, h)"
    by (simp add: create_booking_def)
  have raised: "find_table_by_id tid self h = Some tbl \<and> \<not> is_table_occupied tbl start end self h
       \<and> Booking_init (next_booking_id self) gname ph tbl start end now = Inl err
      \<longrightarrow> create_booking gname ph tid start end now self h = (Inl err, self, h)"
    by (simp add: create_booking_def)
  have appended: "find_table_by_id tid self h = Some tbl \<and> \<not> is_table_occupied tbl start end self h
       \<and> Booking_init (next_booking_id self) gname ph tbl start end now = Inr obj
      \<longrightarrow> create_booking gname ph tid start end now self h
            = (Inr (Some (booking_lim h)),
               self\<lparr>priv_bookings := priv_bookings self @ [booking_lim h],
                    next_booking_id := next_booking_id self + 1\<rparr>,
               h\<lparr>booking_at := (booking_at h)(booking_lim h := obj),
                 booking_lim := Suc (booking_lim h)\<rparr>)"
    by (simp add: create_booking_def new_Booking_def)
  have ident: "Booking_init (next_booking_id self) gname ph tbl start end now = Inr obj
      \<longrightarrow> booking_id obj = next_booking_id self \<and> table obj = tbl"
    using Booking_init_id by blast
  have fresh: "(self, h) = run cs (Restaurant_init, h0)
      \<longrightarrow> (\<forall>b \<in> set (priv_bookings self).
             b \<noteq> booking_lim h \<and> booking_id (booking_at h b) \<noteq> next_booking_id self)"
  proof
    assume "(self, h) = run cs (Restaurant_init, h0)"
    then have "booking_ids_fresh (self, h)"
      using booking_ids_fresh_run [OF booking_ids_fresh_init, of cs h0] by simp
    then show "\<forall>b \<in> set (priv_bookings self).
        b \<noteq> booking_lim h \<and> booking_id (booking_at h b) \<noteq> next_booking_id self"
      by (auto simp: booking_ids_fresh_def list_all_iff)
  qed
  from unknown occupied raised appended ident fresh is_table_occupied_iff [of tbl start "end" self h]
  show ?thesis by blast
qed

text \<open>
  With one booking from 10 to 20 on the only table: an unknown id and an overlapping
  interval give none, an adjacent interval gives the second booking with id 2, and an
  empty phone raises.
\<close>

theorem create_booking_result_witness:
  "(case run [Add_table [84] 4, Create_booking [65] [49] 1 10 20 0] (Restaurant_init, empty_heap) of
      (self, h) \<Rightarrow>
        priv_bookings self = [0] \<and> booking_id (booking_at h 0) = 1 \<and> booking_lim h = 1
        \<and> next_booking_id self = 2
        \<and> find_table_by_id 9 self h = None
        \<and> create_booking [66] [50] 9 30 40 0 self h = (Inr None, self, h)
        \<and> find_table_by_id 1 self h = Some 0
        \<and> is_table_occupied 0 15 25 self h
        \<and> create_booking [66] [50] 1 15 25 0 self h = (Inr None, self, h)
        \<and> \<not> is_table_occupied 0 20 30 self h
        \<and> create_booking [66] [50] 1 20 30 0 self h
             = (Inr (Some 1),
                self\<lparr>priv_bookings := [0, 1], next_booking_id := 3\<rparr>,
                h\<lparr>booking_at := (booking_at h)
                     (1 := \<lparr>booking_id = 2, guest_name = [66], phone = [50], table = 0,
                            start_time = 20, end_time = 30, is_active = True\<rparr>),
                  booking_lim := 2\<rparr>)
        \<and> create_booking [66] [] 1 20 30 0 self h
             = (Inl (ValueError ''Phone cannot be empty''), self, h))"
proof -
  let ?cs = "[Add_table [84] 4, Create_booking [65] [49] 1 10 20 0]"
  obtain self h where st: "run ?cs (Restaurant_init, empty_heap) = (self, h)"
    by (cases "run ?cs (Restaurant_init, empty_heap)")
  have pt: "priv_tables self = [0]" and pb: "priv_bookings self = [0]"
    and nb: "next_booking_id self = 2" and bl: "booking_lim h = 1"
    using st by (auto simp add: model_defs)
  have t0: "table_at h 0 = \<lparr>table_id = 1, name = [84], seats = 4, is_occupied = False,
             current_booking = None\<rparr>"
    using st by (auto simp add: model_defs)
  have b0: "booking_at h 0 = \<lparr>booking_id = 1, guest_name = [65], phone = [49], table = 0,
             start_time = 10, end_time = 20, is_active = True\<rparr>"
    using st by (auto simp add: model_defs)
  have f9: "find_table_by_id 9 self h = None" and f1: "find_table_by_id 1 self h = Some 0"
    by (simp_all add: find_table_by_id_def pt t0)
  have ok: "Booking_init (next_booking_id self) [66] [50] 0 20 30 0
      = Inr \<lparr>booking_id = 2, guest_name = [66], phone = [50], table = 0,
            start_time = 20, end_time = 30, is_active = True\<rparr>"
    and bad: "Booking_init (next_booking_id self) [66] [] 0 20 30 0
      = Inl (ValueError ''Phone cannot be empty'')"
    by (simp_all add: nb Booking_init_def bind_result_def guest_name_setter_def phone_setter_def
        start_time_setter_def end_time_setter_def strip_def isspace_def Booking_new_def)
  show ?thesis
    unfolding st
    using create_booking_result
        [of 9 self h "[66]" "[50]" 30 40 0 0 "ValueError []" Booking_new ?cs empty_heap]
      create_booking_result
        [of 1 self h "[66]" "[50]" 15 25 0 0 "ValueError []" Booking_new ?cs empty_heap]
      create_booking_result
        [of 1 self h "[66]" "[50]" 20 30 0 0 "ValueError []"
          "\<lparr>booking_id = 2, guest_name = [66], phone = [50], table = 0,
            start_time = 20, end_time = 30, is_active = True\<rparr>" ?cs empty_heap]
      create_booking_result
        [of 1 self h "[66]" "[]" 20 30 0 0 "ValueError ''Phone cannot be empty''" Booking_new
          ?cs empty_heap]
      f9 f1 ok bad st
    by (simp add: pb nb bl t0 b0)
qed

subsection \<open>Bookings and the table collection\<close>

lemma bookings_attached_exec:
  assumes inv: "bookings_attached st"
    and spare: "\<And>tid. c = Remove_table tid \<Longrightarrow> \<not> removes_booked_table tid st"
  shows "bookings_attached (exec c st)"
proof (cases st)
  case (Pair self h)
  show ?thesis
  proof (cases c)
    case (Add_table nm n)
    with Pair inv show ?thesis
      by (auto simp: bookings_attached_def add_table_def new_Table_def list_all_iff)
  next
    case (Remove_table i)
    with spare have nb: "\<not> removes_booked_table i st" by simp
    show ?thesis
    proof (cases "find_table_by_id i self h")
      case None
      with Remove_table Pair inv show ?thesis
        by (simp add: remove_table_def)
    next
      case (Some tbl)
      show ?thesis
      proof (cases "is_occupied (table_at h tbl)")
        case True
        with Some Remove_table Pair inv show ?thesis
          by (simp add: remove_table_def)
      next
        case False
        with Some nb Pair
        have other: "\<forall>b \<in> set (priv_bookings self). table (booking_at h b) \<noteq> tbl"
          by (auto simp: removes_booked_table_def list_ex_iff)
        with Some Remove_table Pair inv show ?thesis
          by (auto simp: bookings_attached_def remove_table_def list_remove_def list_all_iff)
      qed
    qed
  next
    case (Create_booking g p i s e n)
    show ?thesis
    proof (cases "find_table_by_id i self h")
      case None
      with Create_booking Pair inv show ?thesis
        by (simp add: create_booking_def)
    next
      case (Some tbl)
      then have mem: "tbl \<in> set (priv_tables self)"
        using find_table_by_id_Some by fastforce
      with Some Create_booking Pair inv show ?thesis
        by (auto simp: bookings_attached_def create_booking_def new_Booking_def list_all_iff
            dest: Booking_init_id split: sum.splits)
    qed
  next
    case (Occupy_table_directly i)
    with Pair inv show ?thesis
      by (auto simp: bookings_attached_def occupy_table_directly_def update_table_def list_all_iff
          split: option.splits)
  next
    case (Release_table i)
    with Pair inv show ?thesis
      by (auto simp: bookings_attached_def release_table_def update_table_def list_all_iff
          split: option.splits)
  next
    case (Cancel_booking i)
    with Pair inv show ?thesis
      by (auto simp: bookings_attached_def cancel_booking_def cancel_def update_table_def
          update_booking_def Let_def list_all_iff split: option.splits)
  qed
qed

lemma bookings_attached_run:
  "bookings_attached st \<Longrightarrow> removals_spare_booked cs st \<Longrightarrow> bookings_attached (run cs st)"
proof (induction cs arbitrary: st)
  case Nil
  then show ?case by simp
next
  case (Cons c cs)
  from Cons.prems have "bookings_attached (exec c st)"
    by (intro bookings_attached_exec) auto
  with Cons show ?case by simp
qed

text \<open>
  C3 as stated fails: a table with an active booking and no occupied flag is removed,
  and the booking then refers to a table that is not in the collection.
\<close>

theorem remove_table_orphans_booking_counterexample:
  "(case run [Add_table [84] 4, Create_booking [65] [49] 1 10 20 0] (Restaurant_init, empty_heap) of
      (self, h) \<Rightarrow>
        priv_tables self = [0] \<and> priv_bookings self = [0] \<and> table (booking_at h 0) = 0
        \<and> is_active (booking_at h 0) \<and> \<not> is_occupied (table_at h 0)
        \<and> remove_table 1 self h = (Inr True, self\<lparr>priv_tables := []\<rparr>))
   \<and> \<not> bookings_attached
         (run [Add_table [84] 4, Create_booking [65] [49] 1 10 20 0, Remove_table 1]
            (Restaurant_init, empty_heap))"
  by (simp add: model_defs bookings_attached_def)

lemma tables_distinct_exec: "tables_distinct st \<Longrightarrow> tables_distinct (exec c st)"
proof (cases st)
  case (Pair self h)
  assume inv: "tables_distinct st"
  show ?thesis
  proof (cases c)
    case (Add_table nm n)
    with Pair inv show ?thesis
      by (auto simp: tables_distinct_def add_table_def new_Table_def list_all_iff less_Suc_eq)
  next
    case (Remove_table i)
    with Pair inv show ?thesis
      by (auto simp: tables_distinct_def remove_table_def list_remove_def list_all_iff
          split: option.splits)
  next
    case (Create_booking g p i s e n)
    with Pair inv show ?thesis
      by (auto simp: tables_distinct_def create_booking_def new_Booking_def list_all_iff
          split: option.splits sum.splits)
  next
    case (Occupy_table_directly i)
    with Pair inv show ?thesis
      by (auto simp: tables_distinct_def occupy_table_directly_def update_table_def list_all_iff
          split: option.splits)
  next
    case (Release_table i)
    with Pair inv show ?thesis
      by (auto simp: tables_distinct_def release_table_def update_table_def list_all_iff
          split: option.splits)
  next
    case (Cancel_booking i)
    with Pair inv show ?thesis
      by (auto simp: tables_distinct_def cancel_booking_def cancel_def update_table_def
          update_booking_def Let_def list_all_iff split: option.splits)
  qed
qed

lemma tables_distinct_run: "tables_distinct st \<Longrightarrow> tables_distinct (run cs st)"
  by (induction cs arbitrary: st) (auto simp: tables_distinct_exec)

lemma tables_distinct_init: "tables_distinct (Restaurant_init, h0)"
  by (simp add: tables_distinct_def Restaurant_init_def)

lemma remove_table_unoccupied:
  assumes "find_table_by_id tid self h = Some tbl" and "\<not> is_occupied (table_at h tbl)"
  shows "remove_table tid self h
           = (Inr True, self\<lparr>priv_tables := remove1 tbl (priv_tables self)\<rparr>)"
proof -
  from assms(1) have "tbl \<in> set (priv_tables self)"
    using find_table_by_id_Some by fastforce
  with assms show ?thesis
    by (simp add: remove_table_def list_remove_def)
qed

text \<open>
  C3, amended. After any sequence of Restaurant operations on a new Restaurant in which
  no \<open>remove_table\<close> call is made on an unoccupied table that has a booking, every
  stored booking refers to a table of the collection. \<open>remove_table\<close> refuses a table
  whose occupied flag is set, and removes a table whose flag is not set, whether or not
  it has bookings: in every state that Restaurant operations reach from a new
  Restaurant, the table removed is then not in the collection any more, so every stored
  booking that refers to it refers to a table outside the collection, and when there is
  such a booking the bookings are not all attached after the call.
\<close>

theorem bookings_attached_unless_booked_table_removed:
  "(removals_spare_booked cs (Restaurant_init, h0)
      \<longrightarrow> bookings_attached (run cs (Restaurant_init, h0)))
   \<and> (find_table_by_id tid self h = Some tbl \<and> is_occupied (table_at h tbl)
      \<longrightarrow> remove_table tid self h = (Inr False, self))
   \<and> (find_table_by_id tid self h = Some tbl \<and> \<not> is_occupied (table_at h tbl)
      \<longrightarrow> remove_table tid self h
            = (Inr True, self\<lparr>priv_tables := remove1 tbl (priv_tables self)\<rparr>))
   \<and> ((self, h) = run ds (Restaurant_init, h1) \<and> find_table_by_id tid self h = Some tbl
       \<and> \<not> is_occupied (table_at h tbl)
      \<longrightarrow> tbl \<notin> set (priv_tables (snd (remove_table tid self h)))
          \<and> (\<forall>b \<in> set (priv_bookings (snd (remove_table tid self h))).
                table (booking_at h b) = tbl
                \<longrightarrow> table (booking_at h b) \<notin> set (priv_tables (snd (remove_table tid self h))))
          \<and> (removes_booked_table tid (self, h)
               \<longrightarrow> \<not> bookings_attached (exec (Remove_table tid) (self, h))))"
proof -
  have init: "bookings_attached (Restaurant_init, h0)"
    by (simp add: bookings_attached_def Restaurant_init_def)
  have inv: "removals_spare_booked cs (Restaurant_init, h0)
      \<longrightarrow> bookings_attached (run cs (Restaurant_init, h0))"
    using bookings_attached_run [OF init] by blast
  have occupied: "find_table_by_id tid self h = Some tbl \<and> is_occupied (table_at h tbl)
      \<longrightarrow> remove_table tid self h = (Inr False, self)"
    by (simp add: remove_table_def)
  have removed: "find_table_by_id tid self h = Some tbl \<and> \<not> is_occupied (table_at h tbl)
      \<longrightarrow> remove_table tid self h
            = (Inr True, self\<lparr>priv_tables := remove1 tbl (priv_tables self)\<rparr>)"
    using remove_table_unoccupied by blast
  have orphaned: "tbl \<notin> set (priv_tables (snd (remove_table tid self h)))
          \<and> (\<forall>b \<in> set (priv_bookings (snd (remove_table tid self h))).
                table (booking_at h b) = tbl
                \<longrightarrow> table (booking_at h b) \<notin> set (priv_tables (snd (remove_table tid self h))))
          \<and> (removes_booked_table tid (self, h)
               \<longrightarrow> \<not> bookings_attached (exec (Remove_table tid) (self, h)))"
    if reach: "(self, h) = run ds (Restaurant_init, h1)"
      and found: "find_table_by_id tid self h = Some tbl"
      and free: "\<not> is_occupied (table_at h tbl)"
  proof -
    have "tables_distinct (self, h)"
      using tables_distinct_run [OF tables_distinct_init, of ds h1] reach by simp
    then have dist: "distinct (priv_tables self)"
      by (simp add: tables_distinct_def)
    have res: "remove_table tid self h
        = (Inr True, self\<lparr>priv_tables := remove1 tbl (priv_tables self)\<rparr>)"
      using remove_table_unoccupied [OF found free] .
    have gone: "tbl \<notin> set (priv_tables (snd (remove_table tid self h)))"
      using dist by (simp add: res)
    have broken: "\<not> bookings_attached (exec (Remove_table tid) (self, h))"
      if "removes_booked_table tid (self, h)"
    proof -
      from that found obtain b where "b \<in> set (priv_bookings self)" "table (booking_at h b) = tbl"
        by (auto simp: removes_booked_table_def list_ex_iff)
      with dist show ?thesis
        by (auto simp: bookings_attached_def res list_all_iff)
    qed
    from gone broken show ?thesis by blast
  qed
  from inv occupied removed orphaned show ?thesis by blast
qed

text \<open>
  A sequence that removes an unbooked table and is refused the removal of a booked,
  occupied one keeps every booking attached. In the state with one table and one
  booking on it, the unoccupied table is removed and the booking is left pointing
  outside the collection.
\<close>

theorem bookings_attached_unless_booked_table_removed_witness:
  "removals_spare_booked
     [Add_table [84] 4, Create_booking [65] [49] 1 10 20 0, Add_table [85] 2, Remove_table 2,
      Occupy_table_directly 1, Remove_table 1]
     (Restaurant_init, empty_heap)
   \<and> bookings_attached
       (run [Add_table [84] 4, Create_booking [65] [49] 1 10 20 0, Add_table [85] 2, Remove_table 2,
             Occupy_table_directly 1, Remove_table 1]
          (Restaurant_init, empty_heap))
   \<and> (case run [Add_table [84] 4, Add_table [85] 2, Occupy_table_directly 1]
             (Restaurant_init, empty_heap) of
        (self, h) \<Rightarrow>
          find_table_by_id 1 self h = Some 0 \<and> is_occupied (table_at h 0)
          \<and> remove_table 1 self h = (Inr False, self))
   \<and> (case run [Add_table [84] 4, Create_booking [65] [49] 1 10 20 0]
             (Restaurant_init, empty_heap) of
        (self, h) \<Rightarrow>
          priv_tables self = [0] \<and> priv_bookings self = [0] \<and> table (booking_at h 0) = 0
          \<and> find_table_by_id 1 self h = Some 0 \<and> \<not> is_occupied (table_at h 0)
          \<and> removes_booked_table 1 (self, h)
          \<and> remove_table 1 self h = (Inr True, self\<lparr>priv_tables := []\<rparr>)
          \<and> 0 \<notin> set (priv_tables (snd (remove_table 1 self h)))
          \<and> \<not> bookings_attached (exec (Remove_table 1) (self, h)))"
proof -
  let ?cs = "[Add_table [84] 4, Create_booking [65] [49] 1 10 20 0, Add_table [85] 2, Remove_table 2,
      Occupy_table_directly 1, Remove_table 1]"
  let ?as = "[Add_table [84] 4, Add_table [85] 2, Occupy_table_directly 1]"
  let ?bs = "[Add_table [84] 4, Create_booking [65] [49] 1 10 20 0]"
  have spare: "removals_spare_booked ?cs (Restaurant_init, empty_heap)"
    by (simp add: model_defs removes_booked_table_def)
  obtain self h where st: "run ?as (Restaurant_init, empty_heap) = (self, h)"
    by (cases "run ?as (Restaurant_init, empty_heap)")
  have pt: "priv_tables self = [0, 1]"
    using st by (auto simp add: model_defs)
  have t0: "table_at h 0 = \<lparr>table_id = 1, name = [84], seats = 4, is_occupied = True,
             current_booking = None\<rparr>"
    using st by (auto simp add: model_defs)
  have f1: "find_table_by_id 1 self h = Some 0"
    by (simp add: find_table_by_id_def pt t0)
  obtain r g where bt: "run ?bs (Restaurant_init, empty_heap) = (r, g)"
    by (cases "run ?bs (Restaurant_init, empty_heap)")
  have rt: "priv_tables r = [0]" and rb: "priv_bookings r = [0]"
    using bt by (auto simp add: model_defs)
  have g0: "table_at g 0 = \<lparr>table_id = 1, name = [84], seats = 4, is_occupied = False,
             current_booking = None\<rparr>"
    using bt by (auto simp add: model_defs)
  have b0: "table (booking_at g 0) = 0"
    using bt by (auto simp add: model_defs)
  have fr: "find_table_by_id 1 r g = Some 0"
    by (simp add: find_table_by_id_def rt g0)
  have booked: "removes_booked_table 1 (r, g)"
    by (simp add: removes_booked_table_def fr g0 rb b0)
  have refused: "bookings_attached (run ?cs (Restaurant_init, empty_heap))
      \<and> remove_table 1 self h = (Inr False, self)"
    using bookings_attached_unless_booked_table_removed [of ?cs empty_heap 1 self h 0 ?as empty_heap]
      spare f1 t0
    by simp
  have free: "\<not> is_occupied (table_at g 0)"
    by (simp add: g0)
  have orphan: "remove_table 1 r g = (Inr True, r\<lparr>priv_tables := remove1 0 (priv_tables r)\<rparr>)
      \<and> 0 \<notin> set (priv_tables (snd (remove_table 1 r g)))
      \<and> \<not> bookings_attached (exec (Remove_table 1) (r, g))"
    using bookings_attached_unless_booked_table_removed [of ?cs empty_heap 1 r g 0 ?bs empty_heap]
      fr free booked bt [symmetric]
    by blast
  then have removed: "remove_table 1 r g = (Inr True, r\<lparr>priv_tables := []\<rparr>)"
    by (simp add: rt)
  from spare refused orphan removed f1 fr booked show ?thesis
    unfolding st bt by (simp add: t0 g0 rt rb b0)
qed

end
